theory Spec2Isabelle
  imports Main "HOL-Library.Log_Nat"
begin

section \<open>JavaScript numbers and strings\<close>

text \<open>
  The checkout page computes with the JavaScript built-ins \<^verbatim>\<open>parseFloat\<close>,
  \<^verbatim>\<open>*\<close>, \<^verbatim>\<open>/\<close> and \<^verbatim>\<open>Number.prototype.toFixed\<close>. A Number is an IEEE 754
  binary64 value: here \<open>NaN\<close>, the two infinities, or \<open>Fin q\<close> with \<open>q\<close> the exact
  rational value of a finite double. Every operation rounds its exact result to the
  nearest double, ties to even (\<open>round_double\<close>). The sign of a zero is not kept: no
  expression of the modelled code can observe it (\<^verbatim>\<open>toFixed\<close> prints both zeros the
  same way and every divisor in the code is a non-zero constant).

  A string is a list of code units; \<open>length\<close> is JavaScript's \<^verbatim>\<open>.length\<close>. Only code
  units below 256 can be written, which covers every character the modelled code
  inspects (digits, sign, dot, exponent letter, \<^verbatim>\<open>@\<close> and white space).
\<close>

datatype jsnum = NaN | PosInf | NegInf | Fin rat

datatype js_error = RangeError

definition pow2 :: "int \<Rightarrow> rat" where
  "pow2 e = (if 0 \<le> e then 2 ^ nat e else 1 / 2 ^ nat (- e))"

definition pow10 :: "int \<Rightarrow> rat" where
  "pow10 e = (if 0 \<le> e then 10 ^ nat e else 1 / 10 ^ nat (- e))"

text \<open>\<open>floor_log2 a\<close> is the binary exponent of a positive rational: \<open>2 ^ e \<le> a < 2 ^ (e + 1)\<close>.\<close>

definition floor_log2 :: "rat \<Rightarrow> int" where
  "floor_log2 a =
     (let (p, d) = quotient_of a; e0 = bitlen p - bitlen d
      in if pow2 e0 \<le> a then e0 else e0 - 1)"

definition round_half_even :: "rat \<Rightarrow> int" where
  "round_half_even q =
     (let f = \<lfloor>q\<rfloor>; r = q - of_int f
      in if r < 1 / 2 then f
         else if 1 / 2 < r then f + 1
         else if even f then f else f + 1)"

text \<open>
  Rounding to binary64: 53 significant bits, least exponent \<open>-1074\<close> (subnormals), and
  overflow to an infinity when the rounded significand \<open>m\<close> scaled by \<open>2 ^ sh\<close> reaches
  \<open>2 ^ 1024\<close>, that is when \<open>bitlen m + sh\<close> exceeds 1024.
\<close>

definition round_double :: "rat \<Rightarrow> jsnum" where
  "round_double q =
     (if q = 0 then Fin 0
      else
        let a = \<bar>q\<bar>;
            sh = max (floor_log2 a - 52) (- 1074);
            m = round_half_even (a / pow2 sh)
        in if 1024 < bitlen m + sh then (if 0 < q then PosInf else NegInf)
           else Fin ((if 0 < q then of_int m else - of_int m) * pow2 sh))"

definition js_neg :: "jsnum \<Rightarrow> jsnum" where
  "js_neg x = (case x of NaN \<Rightarrow> NaN | PosInf \<Rightarrow> NegInf | NegInf \<Rightarrow> PosInf | Fin q \<Rightarrow> Fin (- q))"

fun js_mul :: "jsnum \<Rightarrow> jsnum \<Rightarrow> jsnum" where
  "js_mul NaN _ = NaN"
| "js_mul _ NaN = NaN"
| "js_mul (Fin a) (Fin b) = round_double (a * b)"
| "js_mul (Fin a) PosInf = (if a = 0 then NaN else if 0 < a then PosInf else NegInf)"
| "js_mul (Fin a) NegInf = (if a = 0 then NaN else if 0 < a then NegInf else PosInf)"
| "js_mul PosInf (Fin b) = (if b = 0 then NaN else if 0 < b then PosInf else NegInf)"
| "js_mul NegInf (Fin b) = (if b = 0 then NaN else if 0 < b then NegInf else PosInf)"
| "js_mul PosInf PosInf = PosInf"
| "js_mul PosInf NegInf = NegInf"
| "js_mul NegInf PosInf = NegInf"
| "js_mul NegInf NegInf = PosInf"

text \<open>Division; a zero divisor is taken as \<open>+0\<close> (the code never divides by a zero).\<close>

fun js_div :: "jsnum \<Rightarrow> jsnum \<Rightarrow> jsnum" where
  "js_div NaN _ = NaN"
| "js_div _ NaN = NaN"
| "js_div (Fin a) (Fin b) =
     (if b = 0 then (if a = 0 then NaN else if 0 < a then PosInf else NegInf)
      else round_double (a / b))"
| "js_div (Fin a) _ = Fin 0"
| "js_div PosInf (Fin b) = (if 0 \<le> b then PosInf else NegInf)"
| "js_div NegInf (Fin b) = (if 0 \<le> b then NegInf else PosInf)"
| "js_div _ _ = NaN"

text \<open>White space of \<^verbatim>\<open>trimStart\<close> and of the regular expression class \<^verbatim>\<open>\s\<close>.\<close>

definition is_space :: "char \<Rightarrow> bool" where
  "is_space c = (of_char c \<in> {9, 10, 11, 12, 13, 32, 160 :: nat})"

definition is_digit :: "char \<Rightarrow> bool" where
  "is_digit c = (48 \<le> (of_char c :: nat) \<and> (of_char c :: nat) \<le> 57)"

definition digits_val :: "string \<Rightarrow> int" where
  "digits_val ds = foldl (\<lambda>n c. 10 * n + (of_char c - 48)) 0 ds"

text \<open>
  \<^verbatim>\<open>parseFloat\<close>: skip leading white space, then read the longest prefix that is a
  \<^verbatim>\<open>StrDecimalLiteral\<close> (sign, then \<^verbatim>\<open>Infinity\<close> or digits with an optional fraction
  and an optional exponent); \<open>NaN\<close> when there is no such prefix.
\<close>

definition exponent_part :: "string \<Rightarrow> int" where
  "exponent_part s =
     (case s of
        [] \<Rightarrow> 0
      | c # r \<Rightarrow>
          if c = CHR ''e'' \<or> c = CHR ''E'' then
            (let (sg, t) = (case r of
                              [] \<Rightarrow> (1, r)
                            | x # u \<Rightarrow> if x = CHR ''+'' then (1, u)
                                       else if x = CHR ''-'' then (- 1, u)
                                       else (1, r));
                 ds = takeWhile is_digit t
             in if ds = [] then 0 else sg * digits_val ds)
          else 0)"

definition str_unsigned_decimal :: "string \<Rightarrow> jsnum" where
  "str_unsigned_decimal s =
     (if take 8 s = ''Infinity'' then PosInf
      else
        let ip = takeWhile is_digit s;
            r1 = dropWhile is_digit s;
            (fp, r2) = (case r1 of
                          [] \<Rightarrow> ([], r1)
                        | c # t \<Rightarrow> if c = CHR ''.''
                                   then (takeWhile is_digit t, dropWhile is_digit t)
                                   else ([], r1))
        in if ip = [] \<and> fp = [] then NaN
           else round_double
                  (of_int (digits_val (ip @ fp)) / 10 ^ length fp * pow10 (exponent_part r2)))"

definition parseFloat :: "string \<Rightarrow> jsnum" where
  "parseFloat s =
     (case dropWhile is_space s of
        [] \<Rightarrow> NaN
      | c # r \<Rightarrow>
          if c = CHR ''-'' then js_neg (str_unsigned_decimal r)
          else if c = CHR ''+'' then str_unsigned_decimal r
          else str_unsigned_decimal (c # r))"

text \<open>Decimal digits of a non-negative integer.\<close>

function dec :: "int \<Rightarrow> string" where
  "dec n = (if n < 10 then [char_of (48 + n)] else dec (n div 10) @ [char_of (48 + n mod 10)])"
  by pat_completeness auto
termination
  by (relation "measure nat") auto

declare dec.simps [simp del]

text \<open>
  \<^verbatim>\<open>Number::toString\<close> for a double \<open>x \<ge> 10 ^ 21\<close>, the only case \<^verbatim>\<open>toFixed\<close> hands
  over to it: the shortest digit string \<open>s\<close> (of \<open>k\<close> digits) with \<open>s * 10 ^ (n - k)\<close>
  rounding to \<open>x\<close>, printed in exponential notation.
\<close>

definition exp_candidates :: "rat \<Rightarrow> nat \<Rightarrow> nat \<Rightarrow> int list" where
  "exp_candidates x d k =
     (let sc = 10 ^ (d - k); s0 = \<lfloor>x\<rfloor> div sc
      in filter (\<lambda>s. 10 ^ (k - 1) \<le> s \<and> s < 10 ^ k \<and> round_double (of_int (s * sc)) = Fin x)
           [s0, s0 + 1])"

definition closest :: "rat \<Rightarrow> int \<Rightarrow> int list \<Rightarrow> int" where
  "closest x sc ss =
     (case ss of
        [] \<Rightarrow> 0
      | [s] \<Rightarrow> s
      | s # t # _ \<Rightarrow> if \<bar>of_int (s * sc) - x\<bar> \<le> \<bar>of_int (t * sc) - x\<bar> then s else t)"

definition exp_format :: "int \<Rightarrow> nat \<Rightarrow> string" where
  "exp_format s n =
     (case dec s of
        [] \<Rightarrow> []
      | c # cs \<Rightarrow> (if cs = [] then [c] else c # CHR ''.'' # cs) @ ''e+'' @ dec (int n - 1))"

definition number_to_string_large :: "rat \<Rightarrow> string" where
  "number_to_string_large x =
     (let d = length (dec \<lfloor>x\<rfloor>)
      in if round_double (10 ^ d) = Fin x then exp_format 1 (d + 1)
         else case filter (\<lambda>k. exp_candidates x d k \<noteq> []) [1 ..< 18] of
                [] \<Rightarrow> exp_format \<lfloor>x\<rfloor> d
              | k # _ \<Rightarrow> exp_format (closest x (10 ^ (d - k)) (exp_candidates x d k)) d)"

text \<open>
  \<^verbatim>\<open>toFixed(f)\<close> below \<open>10 ^ 21\<close>: the integer \<open>n\<close> nearest to \<open>x * 10 ^ f\<close> (the larger
  one on a tie), printed with \<open>f\<close> digits after the point.
\<close>

definition fixed_digits :: "rat \<Rightarrow> nat \<Rightarrow> string" where
  "fixed_digits x f =
     (let n = \<lfloor>x * 10 ^ f + 1 / 2\<rfloor>;
          m = dec n
      in if f = 0 then m
         else let m' = (if length m \<le> f then replicate (f + 1 - length m) CHR ''0'' @ m else m);
                  k = length m'
              in take (k - f) m' @ ''.'' @ drop (k - f) m')"

text \<open>\<^verbatim>\<open>toFixed\<close> throws a RangeError for a digit count outside 0..100.\<close>

definition toFixed :: "jsnum \<Rightarrow> int \<Rightarrow> js_error + string" where
  "toFixed x fractionDigits =
     (if fractionDigits < 0 \<or> 100 < fractionDigits then Inl RangeError
      else case x of
             NaN \<Rightarrow> Inr ''NaN''
           | PosInf \<Rightarrow> Inr ''Infinity''
           | NegInf \<Rightarrow> Inr ''-Infinity''
           | Fin q \<Rightarrow>
               let s = (if q < 0 then ''-'' else []); a = \<bar>q\<bar>
               in if 10 ^ 21 \<le> a then Inr (s @ number_to_string_large a)
                  else Inr (s @ fixed_digits a (nat fractionDigits)))"

text \<open>\<^verbatim>\<open>a || b\<close> on strings (the empty string is falsy) and on a looked-up number
  (\<^verbatim>\<open>undefined\<close>, \<open>0\<close> and \<open>NaN\<close> are falsy).\<close>

definition or_string :: "string \<Rightarrow> string \<Rightarrow> string" where
  "or_string a b = (if a = [] then b else a)"

definition or_number :: "jsnum option \<Rightarrow> jsnum \<Rightarrow> jsnum" where
  "or_number a b =
     (case a of None \<Rightarrow> b | Some x \<Rightarrow> if x = NaN \<or> x = Fin 0 then b else x)"

section \<open>constants/design-tokens.ts and lib/utils.ts\<close>

definition EXCHANGE_RATES :: "(string \<times> jsnum) list" where
  "EXCHANGE_RATES =
     [(''ETH_TO_NGN'', Fin 3500000),
      (''BTC_TO_NGN'', Fin 45000000),
      (''USDT_TO_NGN'', Fin 1600),
      (''ETH_TO_USD'', Fin 2200),
      (''BTC_TO_USD'', Fin 28000),
      (''USDT_TO_USD'', Fin 1),
      (''ETH_TO_EUR'', Fin 2000),
      (''BTC_TO_EUR'', Fin 25500),
      (''USDT_TO_EUR'', round_double (92 / 100))]"

definition VALIDATION_phone_minLength :: nat where
  "VALIDATION_phone_minLength = 7"

definition VALIDATION_phone_maxLength :: nat where
  "VALIDATION_phone_maxLength = 15"

text \<open>
  The currency arguments are strings at run time; the key is the template
  \<^verbatim>\<open>`${fromCurrency}_TO_${toCurrency}`\<close>, and a key that the table lacks reads as
  \<^verbatim>\<open>undefined\<close>.
\<close>

definition rate_key :: "string \<Rightarrow> string \<Rightarrow> string" where
  "rate_key fromCurrency toCurrency = fromCurrency @ ''_TO_'' @ toCurrency"

definition calculateExchangeRate :: "jsnum \<Rightarrow> string \<Rightarrow> string \<Rightarrow> js_error + string" where
  "calculateExchangeRate amount fromCurrency toCurrency =
     (let key = rate_key fromCurrency toCurrency;
          rate = or_number (map_of EXCHANGE_RATES key) (Fin 0);
          result = js_mul amount rate
      in toFixed result 2)"

definition calculateInverseRate :: "jsnum \<Rightarrow> string \<Rightarrow> string \<Rightarrow> js_error + string" where
  "calculateInverseRate amount fromCurrency toCurrency =
     (let key = rate_key fromCurrency toCurrency;
          rate = or_number (map_of EXCHANGE_RATES key) (Fin 1);
          result = js_div amount rate
      in toFixed result 4)"

definition safeParseFloat :: "string \<Rightarrow> jsnum \<Rightarrow> jsnum" where
  "safeParseFloat v defaultValue =
     (let parsed = parseFloat v in if parsed = NaN then defaultValue else parsed)"

definition isValidPhone :: "string \<Rightarrow> bool" where
  "isValidPhone phone =
     (let digitsOnly = filter is_digit phone
      in 7 \<le> length digitsOnly \<and> length digitsOnly \<le> 15)"

text \<open>
  The pattern \<^verbatim>\<open>/^[^\s@]+@[^\s@]+\.[^\s@]+$/\<close>: a non-empty run without white space
  or \<^verbatim>\<open>@\<close>, one \<^verbatim>\<open>@\<close>, and a run of such characters that has a dot which is neither
  its first nor its last character.
\<close>

definition email_char :: "char \<Rightarrow> bool" where
  "email_char c = (\<not> is_space c \<and> c \<noteq> CHR ''@'')"

definition email_pattern_test :: "string \<Rightarrow> bool" where
  "email_pattern_test s =
     (let a = takeWhile email_char s
      in a \<noteq> [] \<and>
         (case dropWhile email_char s of
            [] \<Rightarrow> False
          | c # t \<Rightarrow> c = CHR ''@'' \<and> list_all email_char t \<and> CHR ''.'' \<in> set (butlast (tl t))))"

section \<open>Timers and navigation\<close>

text \<open>
  Both pages are React function components. Their \<^verbatim>\<open>useState\<close> cells are the fields
  of a record; a handler maps the state of the latest render to the next state. The
  environment is part of the state: the current time in milliseconds, the pending
  \<^verbatim>\<open>setTimeout\<close> callbacks with the instant each is due (in registration order), and
  the calls made on the router.

  A callback is represented by a constructor that records what the closure captured.
  When time passes, the due callbacks run in the order of their due instants, and in
  registration order among equal instants. No callback of these pages registers a timer
  or reads the clock.
\<close>

datatype nav = Push string | Back

record 'k runtime =
  clock :: nat
  timers :: "(nat \<times> 'k) list"
  routed :: "nav list"

definition setTimeout :: "'k \<Rightarrow> nat \<Rightarrow> ('k, 'z) runtime_scheme \<Rightarrow> ('k, 'z) runtime_scheme" where
  "setTimeout callback delay s = s\<lparr>timers := timers s @ [(clock s + delay, callback)]\<rparr>"

definition due_tasks :: "nat \<Rightarrow> (nat \<times> 'k) list \<Rightarrow> 'k list" where
  "due_tasks T ts = map snd (sort_key fst (filter (\<lambda>x. fst x \<le> T) ts))"

definition pending :: "nat \<Rightarrow> (nat \<times> 'k) list \<Rightarrow> (nat \<times> 'k) list" where
  "pending T ts = filter (\<lambda>x. T < fst x) ts"

definition run_timers ::
  "('k \<Rightarrow> ('k, 'z) runtime_scheme \<Rightarrow> ('k, 'z) runtime_scheme) \<Rightarrow> nat \<Rightarrow>
   ('k, 'z) runtime_scheme \<Rightarrow> ('k, 'z) runtime_scheme" where
  "run_timers run T s =
     foldl (\<lambda>s k. run k s)
       (s\<lparr>timers := pending T (timers s), clock := max (clock s) T\<rparr>)
       (due_tasks T (timers s))"

text \<open>The \<^verbatim>\<open>Button\<close> component: \<^verbatim>\<open>const isDisabled = disabled || loading\<close>.\<close>

definition Button_isDisabled :: "bool \<Rightarrow> bool \<Rightarrow> bool" where
  "Button_isDisabled disabled loading = (disabled \<or> loading)"

section \<open>The checkout page (Home)\<close>

record checkout_errors =
  payFrom_error :: "string option"
  payTo_error :: "string option"

text \<open>The three timer callbacks of the page; the recalculations capture \<^verbatim>\<open>newValue\<close>.\<close>

datatype home_task = RecalcReceive string | RecalcPay string | PushRecipient

record home = "home_task runtime" +
  activeTab :: string
  isConverting :: bool
  isCalculating :: bool
  errors_home :: checkout_errors
  payFrom :: string
  payTo :: string
  payCurrency :: string
  receiveCurrency :: string
  payValue :: string
  receiveValue :: string

definition Home_init :: home where
  "Home_init =
     \<lparr>clock = 0, timers = [], routed = [],
      activeTab = ''Crypto to cash'',
      isConverting = False,
      isCalculating = False,
      errors_home = \<lparr>payFrom_error = None, payTo_error = None\<rparr>,
      payFrom = [],
      payTo = [],
      payCurrency = ''ETH'',
      receiveCurrency = ''NGN'',
      payValue = ''1.00'',
      receiveValue = ''1.00''\<rparr>"

text \<open>\<^verbatim>\<open>(parseFloat(newValue || "0") * 3500).toFixed(2)\<close> and its inverse.\<close>

definition pay_to_receive :: "string \<Rightarrow> js_error + string" where
  "pay_to_receive newValue = toFixed (js_mul (parseFloat (or_string newValue ''0'')) (Fin 3500)) 2"

definition receive_to_pay :: "string \<Rightarrow> js_error + string" where
  "receive_to_pay newValue = toFixed (js_div (parseFloat (or_string newValue ''0'')) (Fin 3500)) 4"

text \<open>A callback that throws is abandoned before its state updates.\<close>

fun run_home_task :: "home_task \<Rightarrow> home \<Rightarrow> home" where
  "run_home_task (RecalcReceive newValue) s =
     (case pay_to_receive newValue of
        Inl _ \<Rightarrow> s
      | Inr calculatedValue \<Rightarrow> s\<lparr>receiveValue := calculatedValue, isCalculating := False\<rparr>)"
| "run_home_task (RecalcPay newValue) s =
     (case receive_to_pay newValue of
        Inl _ \<Rightarrow> s
      | Inr calculatedValue \<Rightarrow> s\<lparr>payValue := calculatedValue, isCalculating := False\<rparr>)"
| "run_home_task PushRecipient s = s\<lparr>routed := routed s @ [Push ''/recipient-details'']\<rparr>"

definition handlePayValueChange :: "string \<Rightarrow> home \<Rightarrow> home" where
  "handlePayValueChange newValue s =
     setTimeout (RecalcReceive newValue) 300 (s\<lparr>payValue := newValue, isCalculating := True\<rparr>)"

definition handleReceiveValueChange :: "string \<Rightarrow> home \<Rightarrow> home" where
  "handleReceiveValueChange newValue s =
     setTimeout (RecalcPay newValue) 300 (s\<lparr>receiveValue := newValue, isCalculating := True\<rparr>)"

definition checkout_keys :: "checkout_errors \<Rightarrow> nat" where
  "checkout_keys e = length (filter (\<lambda>x. x \<noteq> None) [payFrom_error e, payTo_error e])"

definition validateForm :: "home \<Rightarrow> home \<times> bool" where
  "validateForm s =
     (let newErrors = \<lparr>payFrom_error = None, payTo_error = None\<rparr>;
          newErrors = (if payFrom s = [] then
                         newErrors\<lparr>payFrom_error := Some ''Please select a wallet to pay from''\<rparr>
                       else newErrors);
          newErrors = (if payTo s = [] then
                         newErrors\<lparr>payTo_error := Some ''Please select a wallet to pay to''\<rparr>
                       else newErrors)
      in (s\<lparr>errors_home := newErrors\<rparr>, checkout_keys newErrors = 0))"

definition handleConvert :: "home \<Rightarrow> home" where
  "handleConvert s =
     (let (s1, ok) = validateForm s
      in if \<not> ok then s1
         else setTimeout PushRecipient 800 (s1\<lparr>isConverting := True\<rparr>))"

definition onPayFromChange :: "string \<Rightarrow> home \<Rightarrow> home" where
  "onPayFromChange val s =
     s\<lparr>payFrom := val, errors_home := (errors_home s)\<lparr>payFrom_error := None\<rparr>\<rparr>"

definition onPayToChange :: "string \<Rightarrow> home \<Rightarrow> home" where
  "onPayToChange val s =
     s\<lparr>payTo := val, errors_home := (errors_home s)\<lparr>payTo_error := None\<rparr>\<rparr>"

definition elapse_home :: "nat \<Rightarrow> home \<Rightarrow> home" where
  "elapse_home T s = run_timers run_home_task T s"

text \<open>
  What can happen to the page: an edit or a selection, a click on \<^verbatim>\<open>Convert now\<close>
  (which the browser delivers only while the button is enabled), or time passing until
  the instant \<open>T\<close>.
\<close>

datatype home_event =
    TabChange string
  | PayCurrencyChange string
  | ReceiveCurrencyChange string
  | PayValueChange string
  | ReceiveValueChange string
  | PayFromChange string
  | PayToChange string
  | ClickConvert
  | HomeElapse nat

fun home_step :: "home_event \<Rightarrow> home \<Rightarrow> home" where
  "home_step (TabChange t) s = s\<lparr>activeTab := t\<rparr>"
| "home_step (PayCurrencyChange c) s = s\<lparr>payCurrency := c\<rparr>"
| "home_step (ReceiveCurrencyChange c) s = s\<lparr>receiveCurrency := c\<rparr>"
| "home_step (PayValueChange v) s = handlePayValueChange v s"
| "home_step (ReceiveValueChange v) s = handleReceiveValueChange v s"
| "home_step (PayFromChange v) s = onPayFromChange v s"
| "home_step (PayToChange v) s = onPayToChange v s"
| "home_step ClickConvert s =
     (if Button_isDisabled (isConverting s) (isConverting s) then s else handleConvert s)"
| "home_step (HomeElapse T) s = elapse_home T s"

definition home_run :: "home_event list \<Rightarrow> home \<Rightarrow> home" where
  "home_run es s = foldl (\<lambda>s e. home_step e s) s es"

section \<open>hooks/useFormValidation.ts\<close>

record contact_errors =
  contact_email_error :: "string option"
  contact_phoneNumber_error :: "string option"

definition contact_keys :: "contact_errors \<Rightarrow> nat" where
  "contact_keys e =
     length (filter (\<lambda>x. x \<noteq> None) [contact_email_error e, contact_phoneNumber_error e])"

text \<open>\<^verbatim>\<open>validateContact\<close> stores \<^verbatim>\<open>newErrors\<close> with \<^verbatim>\<open>setErrors\<close> and returns whether it
  has no key; here it returns both.\<close>

definition validateContact :: "string \<Rightarrow> string \<Rightarrow> contact_errors \<times> bool" where
  "validateContact email_arg phone_arg =
     (let newErrors = \<lparr>contact_email_error = None, contact_phoneNumber_error = None\<rparr>;
          newErrors = (if email_arg = [] then
                         newErrors\<lparr>contact_email_error := Some ''Email is required''\<rparr>
                       else if \<not> email_pattern_test email_arg then
                         newErrors\<lparr>contact_email_error := Some ''Please enter a valid email address''\<rparr>
                       else newErrors);
          newErrors = (if phone_arg = [] then
                         newErrors\<lparr>contact_phoneNumber_error := Some ''Phone number is required''\<rparr>
                       else if length phone_arg < VALIDATION_phone_minLength then
                         newErrors\<lparr>contact_phoneNumber_error := Some ''Please enter a valid phone number''\<rparr>
                       else newErrors)
      in (newErrors, contact_keys newErrors = 0))"

section \<open>The recipient details page\<close>

datatype form_type = FT_bank | FT_email

record errors_t =
  bank_error :: "string option"
  accountNumber_error :: "string option"
  email_error :: "string option"
  phoneNumber_error :: "string option"

definition no_errors :: errors_t where
  "no_errors =
     \<lparr>bank_error = None, accountNumber_error = None, email_error = None, phoneNumber_error = None\<rparr>"

definition errors_keys :: "errors_t \<Rightarrow> nat" where
  "errors_keys e =
     length (filter (\<lambda>x. x \<noteq> None)
       [bank_error e, accountNumber_error e, email_error e, phoneNumber_error e])"

record country_t =
  country_name :: string
  country_code :: string
  country_flag :: string

text \<open>The three timer callbacks of the page; none of them captures a variable.\<close>

datatype recipient_task = VerifyDone | StepDone | SubmitDone

record recipient = "recipient_task runtime" +
  formType :: form_type
  selectedBank :: string
  accountNumber :: string
  accountName :: string
  email :: string
  country :: country_t
  phoneNumber :: string
  isProcessing :: bool
  isVerifying :: bool
  errors :: errors_t

text \<open>
  The state of the first render. \<^verbatim>\<open>countries\<close> comes from the module \<^verbatim>\<open>../data\<close>;
  its first entry is the parameter \<open>country0\<close>.
\<close>

definition RecipientDetails_init :: "country_t \<Rightarrow> recipient" where
  "RecipientDetails_init country0 =
     \<lparr>clock = 0, timers = [], routed = [],
      formType = FT_bank,
      selectedBank = [],
      accountNumber = [],
      accountName = ''ODUTUGA GBEKE'',
      email = [],
      country = country0,
      phoneNumber = [],
      isProcessing = False,
      isVerifying = False,
      errors = no_errors\<rparr>"

fun run_recipient_task :: "recipient_task \<Rightarrow> recipient \<Rightarrow> recipient" where
  "run_recipient_task VerifyDone s = s\<lparr>accountName := ''ODUTUGA GBEKE'', isVerifying := False\<rparr>"
| "run_recipient_task StepDone s =
     s\<lparr>formType := FT_email, errors := no_errors, isProcessing := False\<rparr>"
| "run_recipient_task SubmitDone s = s\<lparr>routed := routed s @ [Push ''/payment'']\<rparr>"

definition handleAccountNumberChange :: "string \<Rightarrow> recipient \<Rightarrow> recipient" where
  "handleAccountNumberChange v s =
     (let s1 = s\<lparr>accountNumber := v, errors := (errors s)\<lparr>accountNumber_error := None\<rparr>\<rparr>
      in if length v = 10 then
           setTimeout VerifyDone 600 (s1\<lparr>isVerifying := True, accountName := []\<rparr>)
         else s1\<lparr>accountName := []\<rparr>)"

definition validateBankForm :: "recipient \<Rightarrow> recipient \<times> bool" where
  "validateBankForm s =
     (let newErrors = no_errors;
          newErrors = (if selectedBank s = [] then
                         newErrors\<lparr>bank_error := Some ''Please select a bank''\<rparr>
                       else newErrors);
          newErrors = (if accountNumber s = [] then
                         newErrors\<lparr>accountNumber_error := Some ''Account number is required''\<rparr>
                       else if length (accountNumber s) < 10 then
                         newErrors\<lparr>accountNumber_error :=
                           Some ''Account number must be at least 10 digits''\<rparr>
                       else newErrors)
      in (s\<lparr>errors := newErrors\<rparr>, errors_keys newErrors = 0))"

definition validateEmailForm :: "recipient \<Rightarrow> recipient \<times> bool" where
  "validateEmailForm s =
     (let newErrors = no_errors;
          newErrors = (if email s = [] then
                         newErrors\<lparr>email_error := Some ''Email is required''\<rparr>
                       else if \<not> email_pattern_test (email s) then
                         newErrors\<lparr>email_error := Some ''Please enter a valid email''\<rparr>
                       else newErrors);
          newErrors = (if phoneNumber s = [] then
                         newErrors\<lparr>phoneNumber_error := Some ''Phone number is required''\<rparr>
                       else if length (phoneNumber s) < 7 then
                         newErrors\<lparr>phoneNumber_error := Some ''Please enter a valid phone number''\<rparr>
                       else newErrors)
      in (s\<lparr>errors := newErrors\<rparr>, errors_keys newErrors = 0))"

definition handleNext :: "recipient \<Rightarrow> recipient" where
  "handleNext s =
     (if formType s = FT_bank then
        (let (s1, ok) = validateBankForm s
         in if ok then setTimeout StepDone 500 (s1\<lparr>isProcessing := True\<rparr>) else s1)
      else
        (let (s1, ok) = validateEmailForm s
         in if ok then setTimeout SubmitDone 800 (s1\<lparr>isProcessing := True\<rparr>) else s1))"

definition onBankChange :: "string \<Rightarrow> recipient \<Rightarrow> recipient" where
  "onBankChange val s =
     s\<lparr>selectedBank := val, errors := (errors s)\<lparr>bank_error := None\<rparr>\<rparr>"

definition onEmailChange :: "string \<Rightarrow> recipient \<Rightarrow> recipient" where
  "onEmailChange v s = s\<lparr>email := v, errors := (errors s)\<lparr>email_error := None\<rparr>\<rparr>"

definition onChangeNumber :: "string \<Rightarrow> recipient \<Rightarrow> recipient" where
  "onChangeNumber v s =
     s\<lparr>phoneNumber := v, errors := (errors s)\<lparr>phoneNumber_error := None\<rparr>\<rparr>"

definition onBackClick :: "recipient \<Rightarrow> recipient" where
  "onBackClick s =
     (if formType s = FT_email then s\<lparr>formType := FT_bank\<rparr>
      else s\<lparr>routed := routed s @ [Back]\<rparr>)"

text \<open>The props \<^verbatim>\<open>disabled\<close> and \<^verbatim>\<open>loading\<close> that the page passes to its Next button,
  and what the button makes of them.\<close>

definition next_disabled_prop :: "recipient \<Rightarrow> bool" where
  "next_disabled_prop s = (isProcessing s \<or> (formType s = FT_bank \<and> isVerifying s))"

definition next_loading_prop :: "recipient \<Rightarrow> bool" where
  "next_loading_prop s = isProcessing s"

definition next_isDisabled :: "recipient \<Rightarrow> bool" where
  "next_isDisabled s = Button_isDisabled (next_disabled_prop s) (next_loading_prop s)"

definition elapse :: "nat \<Rightarrow> recipient \<Rightarrow> recipient" where
  "elapse T s = run_timers run_recipient_task T s"

text \<open>
  What can happen to the page. The account name input is rendered disabled and so
  yields no event; a click on Next reaches \<open>handleNext\<close> only while the button is
  enabled.
\<close>

datatype recipient_event =
    SelectBank string
  | EditAccountNumber string
  | EditEmail string
  | SelectCountry country_t
  | EditPhone string
  | ClickNext
  | ClickBack
  | Elapse nat

fun recipient_step :: "recipient_event \<Rightarrow> recipient \<Rightarrow> recipient" where
  "recipient_step (SelectBank v) s = onBankChange v s"
| "recipient_step (EditAccountNumber v) s = handleAccountNumberChange v s"
| "recipient_step (EditEmail v) s = onEmailChange v s"
| "recipient_step (SelectCountry c) s = s\<lparr>country := c\<rparr>"
| "recipient_step (EditPhone v) s = onChangeNumber v s"
| "recipient_step ClickNext s = (if next_isDisabled s then s else handleNext s)"
| "recipient_step ClickBack s = onBackClick s"
| "recipient_step (Elapse T) s = elapse T s"

definition recipient_run :: "recipient_event list \<Rightarrow> recipient \<Rightarrow> recipient" where
  "recipient_run es s = foldl (\<lambda>s e. recipient_step e s) s es"

text \<open>The delay each callback is registered with, and the invariant that a pending
  callback is due at most that long after the current instant.\<close>

fun recipient_delay :: "recipient_task \<Rightarrow> nat" where
  "recipient_delay VerifyDone = 600"
| "recipient_delay StepDone = 500"
| "recipient_delay SubmitDone = 800"

fun home_delay :: "home_task \<Rightarrow> nat" where
  "home_delay (RecalcReceive _) = 300"
| "home_delay (RecalcPay _) = 300"
| "home_delay PushRecipient = 800"

definition timers_ok :: "('k \<Rightarrow> nat) \<Rightarrow> ('k, 'z) runtime_scheme \<Rightarrow> bool" where
  "timers_ok delay s = list_all (\<lambda>x. fst x \<le> clock s + delay (snd x)) (timers s)"

text \<open>A country entry for concrete runs (the shape documented for \<^verbatim>\<open>PhoneInput\<close>).\<close>

definition country_Nigeria :: country_t where
  "country_Nigeria =
     \<lparr>country_name = ''Nigeria'', country_code = ''+234'', country_flag = ''NG''\<rparr>"

text \<open>Two states of the bank step, for concrete runs: the fresh form, and the form
  with a bank selected and a ten-digit account number whose verification has completed.\<close>

definition bank_form_empty :: recipient where
  "bank_form_empty = RecipientDetails_init country_Nigeria"

definition bank_form_filled :: recipient where
  "bank_form_filled =
     recipient_run [SelectBank ''GTBank'', EditAccountNumber ''1234567890'', Elapse 600]
       (RecipientDetails_init country_Nigeria)"

text \<open>What a run of callbacks leaves in \<open>receiveValue\<close>: the result of the last
  \<open>RecalcReceive\<close> among them.\<close>

fun is_RecalcReceive :: "home_task \<Rightarrow> bool" where
  "is_RecalcReceive (RecalcReceive _) = True"
| "is_RecalcReceive _ = False"

fun recv_after :: "string \<Rightarrow> home_task list \<Rightarrow> string" where
  "recv_after r [] = r"
| "recv_after r (k # ks) =
     recv_after (case k of
                   RecalcReceive v \<Rightarrow> (case pay_to_receive v of Inl _ \<Rightarrow> r | Inr c \<Rightarrow> c)
                 | _ \<Rightarrow> r) ks"

section \<open>Facts about the built-ins and the timer queue\<close>

text \<open>
  The rounding model: \<open>floor_log2\<close> is the binary exponent, and a finite result of
  \<open>round_double\<close> lies within half a unit in the last place of the exact value.
\<close>

lemma pow2_succ: "pow2 (e + 1) = 2 * pow2 e"
proof -
  consider "0 \<le> e" | "e = - 1" | "e < - 1" by linarith
  then show ?thesis
  proof cases
    case 1
    then have "nat (e + 1) = Suc (nat e)" by simp
    with 1 show ?thesis by (simp add: pow2_def)
  next
    case 2
    then show ?thesis by (simp add: pow2_def)
  next
    case 3
    then have "nat (- e) = Suc (nat (- (e + 1)))" by simp
    with 3 show ?thesis by (simp add: pow2_def)
  qed
qed

lemma pow2_diff_nat: "pow2 (int m - int n) = 2 ^ m / 2 ^ n"
proof (cases "n \<le> m")
  case True
  then have "nat (int m - int n) = m - n" by simp
  with True show ?thesis by (simp add: pow2_def power_diff)
next
  case False
  then have "nat (- (int m - int n)) = n - m" by simp
  with False show ?thesis by (simp add: pow2_def power_diff)
qed

lemma bitlen_bounds_rat:
  assumes "0 < x"
  shows "(2::rat) ^ nat (bitlen x) \<le> 2 * of_int x \<and> of_int x < (2::rat) ^ nat (bitlen x)"
proof -
  have b: "2 ^ nat (bitlen x - 1) \<le> x" "x < 2 ^ nat (bitlen x)"
    using bitlen_bounds [OF assms] by simp_all
  have "1 \<le> bitlen x" using assms by (simp add: bitlen_alt_def)
  then have "nat (bitlen x) = Suc (nat (bitlen x - 1))" by simp
  then have "(2::int) ^ nat (bitlen x) = 2 * 2 ^ nat (bitlen x - 1)" by simp
  with b(1) have "(2::int) ^ nat (bitlen x) \<le> 2 * x" by simp
  then have "of_int ((2::int) ^ nat (bitlen x)) \<le> (of_int (2 * x) :: rat)"
    by (simp only: of_int_le_iff)
  moreover have "(of_int x :: rat) < of_int (2 ^ nat (bitlen x))"
    using b(2) by (simp only: of_int_less_iff)
  ultimately show ?thesis by simp
qed

lemma floor_log2_bounds:
  assumes "0 < a"
  shows "pow2 (floor_log2 a) \<le> a \<and> a < pow2 (floor_log2 a + 1)"
proof -
  obtain p d where q: "quotient_of a = (p, d)" by (cases "quotient_of a")
  then have d: "0 < d" and a: "a = of_int p / of_int d"
    by (simp_all add: quotient_of_denom_pos quotient_of_div)
  with assms have p: "0 < p" by (simp add: zero_less_divide_iff)
  define m where "m = nat (bitlen p)"
  define n where "n = nat (bitlen d)"
  define e0 where "e0 = bitlen p - bitlen d"
  have e0: "e0 = int m - int n"
    by (simp add: e0_def m_def n_def bitlen_nonneg)
  have P: "(2::rat) ^ m \<le> 2 * of_int p" "of_int p < (2::rat) ^ m"
    using bitlen_bounds_rat [OF p] by (simp_all add: m_def)
  have D: "(2::rat) ^ n \<le> 2 * of_int d" "of_int d < (2::rat) ^ n"
    using bitlen_bounds_rat [OF d] by (simp_all add: n_def)
  have dpos: "(0::rat) < of_int d" using d by simp
  have ppos: "(0::rat) < of_int p" using p by simp
  have up: "a < 2 * pow2 e0"
  proof -
    have "of_int p * 2 ^ n < (2::rat) ^ m * (2 * of_int d)"
      using P(2) D(1) ppos by (intro mult_less_le_imp_less) simp_all
    then have "(of_int p :: rat) / of_int d < 2 * (2 ^ m / 2 ^ n)"
      using dpos by (simp add: field_simps)
    then show ?thesis by (simp add: a e0 pow2_diff_nat)
  qed
  have low: "pow2 e0 < 2 * a"
  proof -
    have "(2::rat) ^ m * of_int d < (2 * of_int p) * 2 ^ n"
      using P(1) D(2) dpos by (intro mult_le_less_imp_less) simp_all
    then have "(2::rat) ^ m / 2 ^ n < 2 * (of_int p / of_int d)"
      using dpos by (simp add: field_simps)
    then show ?thesis by (simp add: a e0 pow2_diff_nat)
  qed
  have fl: "floor_log2 a = (if pow2 e0 \<le> a then e0 else e0 - 1)"
    by (simp add: floor_log2_def q e0_def)
  show ?thesis
  proof (cases "pow2 e0 \<le> a")
    case True
    then show ?thesis using up by (simp add: fl pow2_succ)
  next
    case False
    have "pow2 e0 = 2 * pow2 (e0 - 1)"
      using pow2_succ [of "e0 - 1"] by simp
    with False low show ?thesis by (simp add: fl)
  qed
qed

lemma round_half_even_near: "\<bar>of_int (round_half_even q) - q\<bar> \<le> 1 / 2"
proof -
  have "of_int \<lfloor>q\<rfloor> \<le> q" "q < of_int \<lfloor>q\<rfloor> + 1" by linarith+
  then show ?thesis
    unfolding round_half_even_def Let_def by (auto simp: abs_le_iff)
qed


lemma pow2_pos: "0 < pow2 e"
  by (simp add: pow2_def)

lemma round_double_near:
  assumes "q \<noteq> 0" "round_double q = Fin v"
  shows "\<bar>v - q\<bar> \<le> pow2 (max (floor_log2 \<bar>q\<bar> - 52) (- 1074)) / 2"
proof -
  define sh where "sh = max (floor_log2 \<bar>q\<bar> - 52) (- 1074)"
  define m where "m = round_half_even (\<bar>q\<bar> / pow2 sh)"
  have v: "v = (if 0 < q then of_int m else - of_int m) * pow2 sh"
    using assms by (simp add: round_double_def Let_def sh_def m_def split: if_splits)
  have "\<bar>of_int m - \<bar>q\<bar> / pow2 sh\<bar> \<le> 1 / 2"
    unfolding m_def by (rule round_half_even_near)
  then have "\<bar>of_int m - \<bar>q\<bar> / pow2 sh\<bar> * pow2 sh \<le> 1 / 2 * pow2 sh"
    using pow2_pos [of sh] by (intro mult_right_mono) simp_all
  then have "\<bar>(of_int m - \<bar>q\<bar> / pow2 sh) * pow2 sh\<bar> \<le> pow2 sh / 2"
    using pow2_pos [of sh] by (simp add: abs_mult)
  then have near: "\<bar>of_int m * pow2 sh - \<bar>q\<bar>\<bar> \<le> pow2 sh / 2"
    using pow2_pos [of sh] by (simp add: left_diff_distrib)
  show ?thesis
  proof (cases "0 < q")
    case True
    with near show ?thesis by (simp add: v sh_def)
  next
    case False
    with assms(1) have "q < 0" by simp
    then have "\<bar>v - q\<bar> = \<bar>of_int m * pow2 sh - \<bar>q\<bar>\<bar>"
      by (simp add: v)
    with near show ?thesis by (simp add: sh_def)
  qed
qed

lemma toFixed_ok: "0 \<le> f \<Longrightarrow> f \<le> 100 \<Longrightarrow> \<exists>s. toFixed x f = Inr s"
  by (cases x) (simp_all add: toFixed_def Let_def)

lemma pay_to_receive_ok: "\<exists>c. pay_to_receive v = Inr c"
  unfolding pay_to_receive_def by (rule toFixed_ok) simp_all

lemma receive_to_pay_ok: "\<exists>c. receive_to_pay v = Inr c"
  unfolding receive_to_pay_def by (rule toFixed_ok) simp_all

lemma set_due_tasks: "set (due_tasks T ts) = snd ` {x \<in> set ts. fst x \<le> T}"
  by (auto simp: due_tasks_def)

lemma run_recipient_task_env [simp]:
  "timers (run_recipient_task k s) = timers s"
  "clock (run_recipient_task k s) = clock s"
  by (cases k; simp)+

lemma foldl_recipient_env [simp]:
  "timers (foldl (\<lambda>s k. run_recipient_task k s) s ks) = timers s"
  "clock (foldl (\<lambda>s k. run_recipient_task k s) s ks) = clock s"
  by (induction ks arbitrary: s) simp_all

lemma foldl_accountName:
  "accountName (foldl (\<lambda>s k. run_recipient_task k s) s ks) =
     (if VerifyDone \<in> set ks then ''ODUTUGA GBEKE'' else accountName s)"
proof (induction ks arbitrary: s)
  case Nil
  show ?case by simp
next
  case (Cons k ks)
  show ?case by (cases k) (simp_all add: Cons.IH)
qed

lemma foldl_isVerifying:
  "isVerifying (foldl (\<lambda>s k. run_recipient_task k s) s ks) =
     (if VerifyDone \<in> set ks then False else isVerifying s)"
proof (induction ks arbitrary: s)
  case Nil
  show ?case by simp
next
  case (Cons k ks)
  show ?case by (cases k) (simp_all add: Cons.IH)
qed

lemma foldl_formType:
  "formType (foldl (\<lambda>s k. run_recipient_task k s) s ks) =
     (if StepDone \<in> set ks then FT_email else formType s)"
proof (induction ks arbitrary: s)
  case Nil
  show ?case by simp
next
  case (Cons k ks)
  show ?case by (cases k) (simp_all add: Cons.IH)
qed

lemma foldl_errors:
  "errors (foldl (\<lambda>s k. run_recipient_task k s) s ks) =
     (if StepDone \<in> set ks then no_errors else errors s)"
proof (induction ks arbitrary: s)
  case Nil
  show ?case by simp
next
  case (Cons k ks)
  show ?case by (cases k) (simp_all add: Cons.IH)
qed

lemma foldl_isProcessing:
  "isProcessing (foldl (\<lambda>s k. run_recipient_task k s) s ks) =
     (if StepDone \<in> set ks then False else isProcessing s)"
proof (induction ks arbitrary: s)
  case Nil
  show ?case by simp
next
  case (Cons k ks)
  show ?case by (cases k) (simp_all add: Cons.IH)
qed

lemma elapse_env:
  "timers (elapse T s) = pending T (timers s)"
  "clock (elapse T s) = max (clock s) T"
  by (simp_all add: elapse_def run_timers_def)

lemma elapse_accountName:
  "accountName (elapse T s) =
     (if VerifyDone \<in> set (due_tasks T (timers s)) then ''ODUTUGA GBEKE'' else accountName s)"
  by (simp add: elapse_def run_timers_def foldl_accountName)

lemma elapse_isVerifying:
  "isVerifying (elapse T s) =
     (if VerifyDone \<in> set (due_tasks T (timers s)) then False else isVerifying s)"
  by (simp add: elapse_def run_timers_def foldl_isVerifying)

lemma elapse_formType:
  "formType (elapse T s) =
     (if StepDone \<in> set (due_tasks T (timers s)) then FT_email else formType s)"
  by (simp add: elapse_def run_timers_def foldl_formType)

lemma elapse_errors:
  "errors (elapse T s) =
     (if StepDone \<in> set (due_tasks T (timers s)) then no_errors else errors s)"
  by (simp add: elapse_def run_timers_def foldl_errors)

lemma elapse_isProcessing:
  "isProcessing (elapse T s) =
     (if StepDone \<in> set (due_tasks T (timers s)) then False else isProcessing s)"
  by (simp add: elapse_def run_timers_def foldl_isProcessing)

lemma timers_ok_init: "timers_ok recipient_delay (RecipientDetails_init c0)"
  by (simp add: timers_ok_def RecipientDetails_init_def)

lemma timers_ok_elapse:
  "timers_ok recipient_delay s \<Longrightarrow> timers_ok recipient_delay (elapse T s)"
  by (auto simp: timers_ok_def elapse_env pending_def list_all_iff)

lemma timers_ok_step:
  "timers_ok recipient_delay s \<Longrightarrow> timers_ok recipient_delay (recipient_step e s)"
proof (cases e)
  case (Elapse T)
  assume "timers_ok recipient_delay s"
  then show ?thesis using Elapse by (simp add: timers_ok_elapse)
next
  case ClickNext
  assume "timers_ok recipient_delay s"
  then show ?thesis using ClickNext
    by (auto simp: timers_ok_def list_all_iff handleNext_def validateBankForm_def
          validateEmailForm_def setTimeout_def Let_def)
qed (auto simp: timers_ok_def list_all_iff onBankChange_def handleAccountNumberChange_def
       onEmailChange_def onChangeNumber_def onBackClick_def setTimeout_def Let_def)

lemma recipient_run_snoc:
  "recipient_run (es @ [e]) s = recipient_step e (recipient_run es s)"
  by (simp add: recipient_run_def)

lemma timers_ok_run: "timers_ok recipient_delay (recipient_run es (RecipientDetails_init c0))"
proof (induction es rule: rev_induct)
  case Nil
  show ?case by (simp add: recipient_run_def timers_ok_init)
next
  case (snoc e es)
  then show ?case by (simp add: recipient_run_snoc timers_ok_step)
qed


lemma handle_short:
  "length u \<noteq> 10 \<Longrightarrow>
     accountName (handleAccountNumberChange u s) = [] \<and>
     isVerifying (handleAccountNumberChange u s) = isVerifying s \<and>
     timers (handleAccountNumberChange u s) = timers s \<and>
     clock (handleAccountNumberChange u s) = clock s"
  by (simp add: handleAccountNumberChange_def Let_def)

lemma handle_ten:
  "length v = 10 \<Longrightarrow>
     accountName (handleAccountNumberChange v s) = [] \<and>
     isVerifying (handleAccountNumberChange v s) \<and>
     timers (handleAccountNumberChange v s) = timers s @ [(clock s + 600, VerifyDone)] \<and>
     clock (handleAccountNumberChange v s) = clock s"
  by (simp add: handleAccountNumberChange_def Let_def setTimeout_def)

lemma verify_fires:
  assumes "length v = 10" "clock s + 600 \<le> T"
  shows "VerifyDone \<in> set (due_tasks T (timers (handleAccountNumberChange v s)))"
proof -
  have "(clock s + 600, VerifyDone) \<in> set (timers (handleAccountNumberChange v s))"
    using assms(1) by (simp add: handle_ten)
  with assms(2) show ?thesis
    by (force simp: set_due_tasks)
qed

lemma no_verify_pending:
  assumes ok: "timers_ok recipient_delay s" and "length v = 10" "clock s + 600 \<le> T"
  shows "VerifyDone \<notin> snd ` set (timers (elapse T (handleAccountNumberChange v s)))"
proof
  assume "VerifyDone \<in> snd ` set (timers (elapse T (handleAccountNumberChange v s)))"
  then have "VerifyDone \<in> snd ` set (pending T (timers s @ [(clock s + 600, VerifyDone)]))"
    using assms(2) by (simp add: elapse_env handle_ten)
  then obtain t where "(t, VerifyDone) \<in> set (timers s @ [(clock s + 600, VerifyDone)])"
      and late: "T < t"
    unfolding pending_def by force
  then have "t \<le> clock s + 600"
    using ok by (auto simp: timers_ok_def list_all_iff)
  with late assms(3) show False by simp
qed

lemma no_verify_stays:
  assumes "VerifyDone \<notin> snd ` set (timers s)"
  shows "accountName (elapse T s) = accountName s \<and> isVerifying (elapse T s) = isVerifying s"
proof -
  have "VerifyDone \<notin> set (due_tasks T (timers s))"
    using assms by (auto simp: set_due_tasks)
  then show ?thesis by (simp add: elapse_accountName elapse_isVerifying)
qed

lemma handleNext_bank_empty:
  assumes "formType s = FT_bank" "selectedBank s = []" "accountNumber s = []"
  shows "handleNext s =
           s\<lparr>errors := no_errors\<lparr>bank_error := Some ''Please select a bank'',
                accountNumber_error := Some ''Account number is required''\<rparr>\<rparr>"
  using assms by (simp add: handleNext_def validateBankForm_def errors_keys_def no_errors_def)

lemma handleNext_bank_valid:
  assumes "formType r = FT_bank" "selectedBank r \<noteq> []" "10 \<le> length (accountNumber r)"
  shows "handleNext r =
           r\<lparr>errors := no_errors, isProcessing := True,
             timers := timers r @ [(clock r + 500, StepDone)]\<rparr>"
  using assms
proof -
  have "accountNumber r \<noteq> []" "\<not> length (accountNumber r) < 10"
    using assms(3) by auto
  then show ?thesis
    using assms(1,2)
    by (simp add: handleNext_def validateBankForm_def errors_keys_def no_errors_def
          setTimeout_def Let_def)
qed

lemma run_home_task_env [simp]:
  "timers (run_home_task k s) = timers s"
  "clock (run_home_task k s) = clock s"
  "errors_home (run_home_task k s) = errors_home s"
  by (cases k; simp split: sum.splits)+

lemma foldl_home_env [simp]:
  "timers (foldl (\<lambda>s k. run_home_task k s) s ks) = timers s"
  "clock (foldl (\<lambda>s k. run_home_task k s) s ks) = clock s"
  "errors_home (foldl (\<lambda>s k. run_home_task k s) s ks) = errors_home s"
  by (induction ks arbitrary: s) simp_all

lemma elapse_home_env:
  "timers (elapse_home T s) = pending T (timers s)"
  "clock (elapse_home T s) = max (clock s) T"
  "errors_home (elapse_home T s) = errors_home s"
  by (simp_all add: elapse_home_def run_timers_def)

lemma foldl_receiveValue:
  "receiveValue (foldl (\<lambda>s k. run_home_task k s) s ks) = recv_after (receiveValue s) ks"
proof (induction ks arbitrary: s)
  case Nil
  show ?case by simp
next
  case (Cons k ks)
  show ?case by (cases k) (simp_all add: Cons.IH split: sum.splits)
qed

lemma recv_after_filter: "recv_after r ks = recv_after r (filter is_RecalcReceive ks)"
proof (induction ks arbitrary: r)
  case Nil
  show ?case by simp
next
  case (Cons k ks)
  show ?case by (cases k) (simp_all add: Cons.IH [symmetric])
qed

lemma recv_after_append: "recv_after r (ks @ ks') = recv_after (recv_after r ks) ks'"
  by (induction ks arbitrary: r) simp_all

lemma recv_after_last: "Inr (recv_after r (ks @ [RecalcReceive v])) = pay_to_receive v"
  using pay_to_receive_ok [of v] by (auto simp: recv_after_append)

lemma insort_key_snoc:
  "f a \<le> f x \<Longrightarrow> insort_key f a (ys @ [x]) = insort_key f a ys @ [x]"
  by (induction ys) simp_all

lemma sort_key_snoc:
  "\<forall>y\<in>set ys. f y \<le> f x \<Longrightarrow> sort_key f (ys @ [x]) = sort_key f ys @ [x]"
proof (induction ys)
  case Nil
  show ?case by simp
next
  case (Cons a ys)
  then show ?case by (simp add: insort_key_snoc)
qed

lemma filter_due_tasks:
  "filter P (due_tasks T ts) = due_tasks T (filter (\<lambda>x. P (snd x)) ts)"
proof -
  have "filter P (map snd (sort_key fst (filter (\<lambda>x. fst x \<le> T) ts))) =
        map snd (filter (\<lambda>x. P (snd x)) (sort_key fst (filter (\<lambda>x. fst x \<le> T) ts)))"
    by (simp add: filter_map comp_def)
  also have "\<dots> = map snd (sort_key fst (filter (\<lambda>x. P (snd x)) (filter (\<lambda>x. fst x \<le> T) ts)))"
    by (simp add: filter_sort)
  also have "\<dots> = map snd (sort_key fst (filter (\<lambda>x. fst x \<le> T) (filter (\<lambda>x. P (snd x)) ts)))"
    by (simp add: conj_commute)
  finally show ?thesis by (simp add: due_tasks_def)
qed

lemma due_tasks_snoc:
  assumes "\<forall>x\<in>set ts. fst x \<le> t" "t \<le> T"
  shows "due_tasks T (ts @ [(t, k)]) = due_tasks T ts @ [k]"
proof -
  have "\<forall>y\<in>set (filter (\<lambda>x. fst x \<le> T) ts). fst y \<le> fst (t, k)"
    using assms(1) by simp
  then have "sort_key fst (filter (\<lambda>x. fst x \<le> T) ts @ [(t, k)]) =
             sort_key fst (filter (\<lambda>x. fst x \<le> T) ts) @ [(t, k)]"
    by (rule sort_key_snoc)
  then show ?thesis using assms(2) by (simp add: due_tasks_def)
qed

lemma last_recalc_wins:
  assumes old: "\<forall>x\<in>set ts. is_RecalcReceive (snd x) \<longrightarrow> fst x \<le> t" and T: "t \<le> T"
    and ts: "timers s = ts @ [(t, RecalcReceive v)]"
  shows "Inr (receiveValue (elapse_home T s)) = pay_to_receive v"
proof -
  let ?rs = "filter (\<lambda>x. is_RecalcReceive (snd x)) ts"
  have "\<forall>x\<in>set ?rs. fst x \<le> t" using old by simp
  then have snoc: "due_tasks T (?rs @ [(t, RecalcReceive v)]) = due_tasks T ?rs @ [RecalcReceive v]"
    using T by (rule due_tasks_snoc)
  have "receiveValue (elapse_home T s) = recv_after (receiveValue s) (due_tasks T (timers s))"
    by (simp add: elapse_home_def run_timers_def foldl_receiveValue)
  also have "\<dots> = recv_after (receiveValue s) (filter is_RecalcReceive (due_tasks T (timers s)))"
    by (rule recv_after_filter)
  also have "\<dots> = recv_after (receiveValue s) (due_tasks T ?rs @ [RecalcReceive v])"
    by (simp add: filter_due_tasks ts snoc)
  finally show ?thesis by (simp add: recv_after_last)
qed

lemma home_timers_ok_init: "timers_ok home_delay Home_init"
  by (simp add: timers_ok_def Home_init_def)

lemma home_timers_ok_step:
  "timers_ok home_delay s \<Longrightarrow> timers_ok home_delay (home_step e s)"
proof (cases e)
  case (HomeElapse T)
  assume "timers_ok home_delay s"
  then show ?thesis using HomeElapse
    by (auto simp: timers_ok_def elapse_home_env pending_def list_all_iff)
next
  case ClickConvert
  assume "timers_ok home_delay s"
  then show ?thesis using ClickConvert
    by (auto simp: timers_ok_def list_all_iff handleConvert_def validateForm_def
          setTimeout_def Let_def)
qed (auto simp: timers_ok_def list_all_iff handlePayValueChange_def
       handleReceiveValueChange_def onPayFromChange_def onPayToChange_def setTimeout_def)

lemma home_run_snoc: "home_run (es @ [e]) s = home_step e (home_run es s)"
  by (simp add: home_run_def)

lemma home_timers_ok_run: "timers_ok home_delay (home_run es Home_init)"
proof (induction es rule: rev_induct)
  case Nil
  show ?case by (simp add: home_run_def home_timers_ok_init)
next
  case (snoc e es)
  then show ?case by (simp add: home_run_snoc home_timers_ok_step)
qed

lemma recalc_due_bound:
  assumes "timers_ok home_delay s" "x \<in> set (timers s)" "is_RecalcReceive (snd x)"
  shows "fst x \<le> clock s + 300"
proof -
  have "fst x \<le> clock s + home_delay (snd x)"
    using assms(1,2) by (simp add: timers_ok_def list_all_iff)
  moreover have "home_delay (snd x) = 300"
    using assms(3) by (cases "snd x") simp_all
  ultimately show ?thesis by simp
qed

section \<open>Two pay-amount edits in quick succession\<close>

text \<open>
  C1 (amended). No edit cancels or invalidates the completion of an earlier edit. In
  every reachable state \<open>s\<close> of the checkout page, let the pay amount be edited to
  \<open>v1\<close> and then, at an instant \<open>t\<close> before the first delay of 300 ms has elapsed, to
  \<open>v2\<close>. When the first delay elapses the superseded completion runs and writes
  \<open>v1\<close>'s conversion into \<open>receiveValue\<close>, where it stays until \<open>v2\<close>'s delay elapses;
  from that instant on \<open>receiveValue\<close> holds \<open>v2\<close>'s conversion (as long as no further
  edit is made).
\<close>

theorem superseded_edit_still_completes:
  fixes es v1 v2 t T1 T2
  defines "s \<equiv> home_run es Home_init"
  defines "s2 \<equiv> handlePayValueChange v2 (elapse_home t (handlePayValueChange v1 s))"
  assumes t: "clock s \<le> t" "t < clock s + 300"
    and T1: "clock s + 300 \<le> T1" "T1 < t + 300"
    and T2: "t + 300 \<le> T2"
  shows "Inr (receiveValue (elapse_home T1 s2)) = pay_to_receive v1 \<and>
         Inr (receiveValue (elapse_home T2 s2)) = pay_to_receive v2"
proof -
  have ok: "timers_ok home_delay s"
    unfolding s_def by (rule home_timers_ok_run)
  let ?old = "pending t (timers s)"
  let ?x1 = "(clock s + 300, RecalcReceive v1)"
  let ?x2 = "(t + 300, RecalcReceive v2)"
  have tm: "timers s2 = (?old @ [?x1]) @ [?x2]"
    using t by (simp add: s2_def handlePayValueChange_def setTimeout_def elapse_home_env
        pending_def max_def)
  have old: "\<forall>x\<in>set ?old. is_RecalcReceive (snd x) \<longrightarrow> fst x \<le> clock s + 300"
    using recalc_due_bound [OF ok] by (auto simp: pending_def)
  have first: "Inr (receiveValue (elapse_home T1 s2)) = pay_to_receive v1"
  proof -
    let ?s' = "s2\<lparr>timers := ?old @ [?x1]\<rparr>"
    have "due_tasks T1 (timers s2) = due_tasks T1 (?old @ [?x1])"
      using T1(2) by (simp add: tm due_tasks_def)
    then have "receiveValue (elapse_home T1 s2) = receiveValue (elapse_home T1 ?s')"
      by (simp add: elapse_home_def run_timers_def foldl_receiveValue)
    moreover have "Inr (receiveValue (elapse_home T1 ?s')) = pay_to_receive v1"
      using old T1(1) by (rule last_recalc_wins) simp
    ultimately show ?thesis by simp
  qed
  have "\<forall>x\<in>set (?old @ [?x1]). is_RecalcReceive (snd x) \<longrightarrow> fst x \<le> t + 300"
    using old t by auto
  then have "Inr (receiveValue (elapse_home T2 s2)) = pay_to_receive v2"
    using T2 tm by (rule last_recalc_wins)
  with first show ?thesis by simp
qed

theorem superseded_edit_still_completes_witness:
  "clock Home_init \<le> 100 \<and> (100::nat) < clock Home_init + 300 \<and>
   clock Home_init + 300 \<le> 300 \<and> (300::nat) < 100 + 300 \<and> (100::nat) + 300 \<le> 400 \<and>
   receiveValue (elapse_home 300 (handlePayValueChange ''2''
      (elapse_home 100 (handlePayValueChange ''1'' Home_init)))) = ''3500.00'' \<and>
   receiveValue (elapse_home 400 (handlePayValueChange ''2''
      (elapse_home 100 (handlePayValueChange ''1'' Home_init)))) = ''7000.00''"
proof -
  have p1: "pay_to_receive ''1'' = Inr ''3500.00''" by code_simp
  have p2: "pay_to_receive ''2'' = Inr ''7000.00''" by code_simp
  have c: "clock Home_init = 0" by (simp add: Home_init_def)
  show ?thesis
    using superseded_edit_still_completes
            [where es = "[]" and t = 100 and ?T1.0 = 300 and ?T2.0 = 400
               and ?v1.0 = "''1''" and ?v2.0 = "''2''"]
    by (simp add: home_run_def c p1 p2)
qed

text \<open>
  C1 as stated fails: edit to \<open>1\<close> at 0 ms, edit to \<open>2\<close> at 100 ms; at 300 ms, after
  the second edit, \<open>receiveValue\<close> holds the conversion of \<open>1\<close>.
\<close>

theorem last_edit_wins_counterexample:
  "receiveValue (elapse_home 300 (handlePayValueChange ''2''
      (elapse_home 100 (handlePayValueChange ''1'' Home_init)))) = ''3500.00'' \<and>
   pay_to_receive ''1'' = Inr ''3500.00'' \<and>
   pay_to_receive ''2'' = Inr ''7000.00''"
  by code_simp

section \<open>Account number edits and the simulated verification\<close>

text \<open>
  C4 (amended). The handler measures the raw length of the input; no digit
  normalization is applied. In every reachable state \<open>s\<close> of the recipient page:
  an input \<open>u\<close> whose length is not 10 clears \<open>accountName\<close> at once, leaves
  \<open>isVerifying\<close> as it was and registers no timer; an input \<open>v\<close> of length 10 (in
  particular every string of exactly ten digits) clears \<open>accountName\<close>, sets
  \<open>isVerifying\<close> and registers the completion 600 ms ahead, and once that delay has
  elapsed \<open>accountName\<close> is the canned name and \<open>isVerifying\<close> is false; appending an
  eleventh character to the verified value clears \<open>accountName\<close>, registers no timer,
  and however much time passes afterwards the name stays empty and no verification runs.
\<close>

theorem editAccountNumber_trigger_boundary:
  fixes es c0 u v d T T'
  defines "s \<equiv> recipient_run es (RecipientDetails_init c0)"
  defines "s1 \<equiv> handleAccountNumberChange v s"
  defines "s2 \<equiv> handleAccountNumberChange (v @ [d]) (elapse T s1)"
  assumes u: "length u \<noteq> 10" and v: "length v = 10" and T: "clock s + 600 \<le> T"
  shows "accountName (handleAccountNumberChange u s) = [] \<and>
         isVerifying (handleAccountNumberChange u s) = isVerifying s \<and>
         timers (handleAccountNumberChange u s) = timers s \<and>
         accountName s1 = [] \<and> isVerifying s1 \<and>
         timers s1 = timers s @ [(clock s + 600, VerifyDone)] \<and>
         accountName (elapse T s1) = ''ODUTUGA GBEKE'' \<and> \<not> isVerifying (elapse T s1) \<and>
         accountName s2 = [] \<and> \<not> isVerifying s2 \<and> timers s2 = timers (elapse T s1) \<and>
         accountName (elapse T' s2) = [] \<and> \<not> isVerifying (elapse T' s2)"
proof -
  have ok: "timers_ok recipient_delay s"
    unfolding s_def by (rule timers_ok_run)
  have fires: "VerifyDone \<in> set (due_tasks T (timers s1))"
    unfolding s1_def using v T by (rule verify_fires)
  have completed: "accountName (elapse T s1) = ''ODUTUGA GBEKE'' \<and> \<not> isVerifying (elapse T s1)"
    using fires by (simp add: elapse_accountName elapse_isVerifying)
  have len: "length (v @ [d]) \<noteq> 10" using v by simp
  have s2: "accountName s2 = [] \<and> isVerifying s2 = isVerifying (elapse T s1) \<and>
            timers s2 = timers (elapse T s1)"
    unfolding s2_def using handle_short [OF len] by simp
  have "VerifyDone \<notin> snd ` set (timers (elapse T s1))"
    unfolding s1_def using ok v T by (rule no_verify_pending)
  then have "VerifyDone \<notin> snd ` set (timers s2)" using s2 by simp
  then have later: "accountName (elapse T' s2) = accountName s2 \<and>
                    isVerifying (elapse T' s2) = isVerifying s2"
    by (rule no_verify_stays)
  show ?thesis
    using handle_short [OF u, of s] handle_ten [OF v, of s] completed s2 later
    by (simp add: s1_def)
qed

theorem editAccountNumber_trigger_boundary_witness:
  "length ''123456789'' \<noteq> 10 \<and> length ''1234567890'' = 10 \<and>
   clock (RecipientDetails_init country_Nigeria) + 600 \<le> 600 \<and>
   \<not> isVerifying (handleAccountNumberChange ''123456789'' (RecipientDetails_init country_Nigeria)) \<and>
   isVerifying (handleAccountNumberChange ''1234567890'' (RecipientDetails_init country_Nigeria)) \<and>
   accountName (elapse 600
     (handleAccountNumberChange ''1234567890'' (RecipientDetails_init country_Nigeria))) =
     ''ODUTUGA GBEKE'' \<and>
   accountName (elapse 5000 (handleAccountNumberChange ''12345678901''
     (elapse 600 (handleAccountNumberChange ''1234567890''
        (RecipientDetails_init country_Nigeria))))) = []"
  using editAccountNumber_trigger_boundary
          [of "''123456789''" "''1234567890''" "[]" country_Nigeria 600 "CHR ''1''" 5000]
  by (simp add: recipient_run_def RecipientDetails_init_def)



text \<open>
  C4 as stated fails: the trigger is not the count of digits. An input with nine
  digits and a space has length 10 and starts a verification; an input with ten digits
  and a dash has length 11 and starts none.
\<close>

theorem editAccountNumber_digit_count_counterexample:
  "length (filter is_digit ''12345 6789'') = 9 \<and>
   isVerifying (handleAccountNumberChange ''12345 6789'' (RecipientDetails_init country_Nigeria)) \<and>
   length (filter is_digit ''12345-67890'') = 10 \<and>
   \<not> isVerifying (handleAccountNumberChange ''12345-67890'' (RecipientDetails_init country_Nigeria)) \<and>
   timers (handleAccountNumberChange ''12345-67890'' (RecipientDetails_init country_Nigeria)) = []"
  by (simp add: handleAccountNumberChange_def RecipientDetails_init_def setTimeout_def
        is_digit_def)


section \<open>Advancing from the bank step\<close>

text \<open>
  C7. On the bank step, \<open>handleNext\<close> with no bank selected and an empty account
  number sets both \<open>errors.bank\<close> and \<open>errors.accountNumber\<close>, stays on the bank step,
  registers no timer and leaves \<open>isProcessing\<close> alone. With the bank \<open>GTBank\<close> and an
  account number of ten characters it sets \<open>isProcessing\<close> and registers the transition
  500 ms ahead; once that delay has elapsed the page is on the contact step with no
  errors and \<open>isProcessing\<close> false.
\<close>

theorem bank_step_advance_gating:
  assumes s: "formType s = FT_bank" "selectedBank s = []" "accountNumber s = []"
    and r: "formType r = FT_bank" "selectedBank r = ''GTBank''" "length (accountNumber r) = 10"
    and T: "clock r + 500 \<le> T"
  shows "bank_error (errors (handleNext s)) = Some ''Please select a bank'' \<and>
         accountNumber_error (errors (handleNext s)) = Some ''Account number is required'' \<and>
         formType (handleNext s) = FT_bank \<and>
         timers (handleNext s) = timers s \<and>
         isProcessing (handleNext s) = isProcessing s \<and>
         isProcessing (handleNext r) \<and>
         formType (handleNext r) = FT_bank \<and>
         errors (handleNext r) = no_errors \<and>
         timers (handleNext r) = timers r @ [(clock r + 500, StepDone)] \<and>
         formType (elapse T (handleNext r)) = FT_email \<and>
         errors (elapse T (handleNext r)) = no_errors \<and>
         \<not> isProcessing (elapse T (handleNext r))"
proof -
  have fail: "handleNext s =
      s\<lparr>errors := no_errors\<lparr>bank_error := Some ''Please select a bank'',
           accountNumber_error := Some ''Account number is required''\<rparr>\<rparr>"
    using s by (rule handleNext_bank_empty)
  have pass: "handleNext r =
      r\<lparr>errors := no_errors, isProcessing := True,
        timers := timers r @ [(clock r + 500, StepDone)]\<rparr>"
    using r by (intro handleNext_bank_valid) simp_all
  have "(clock r + 500, StepDone) \<in> set (timers (handleNext r))"
    by (simp add: pass)
  with T have fires: "StepDone \<in> set (due_tasks T (timers (handleNext r)))"
    by (force simp: set_due_tasks)
  have after: "formType (elapse T (handleNext r)) = FT_email \<and>
               errors (elapse T (handleNext r)) = no_errors \<and>
               \<not> isProcessing (elapse T (handleNext r))"
    using fires by (simp add: elapse_formType elapse_errors elapse_isProcessing)
  show ?thesis
    using after s(1) r(1) by (simp add: fail pass)
qed

theorem bank_step_advance_gating_witness:
  "formType bank_form_empty = FT_bank \<and> selectedBank bank_form_empty = [] \<and>
   accountNumber bank_form_empty = [] \<and>
   formType bank_form_filled = FT_bank \<and> selectedBank bank_form_filled = ''GTBank'' \<and>
   length (accountNumber bank_form_filled) = 10 \<and>
   clock bank_form_filled + 500 \<le> 1100 \<and>
   bank_error (errors (handleNext bank_form_empty)) = Some ''Please select a bank'' \<and>
   accountNumber_error (errors (handleNext bank_form_empty)) = Some ''Account number is required'' \<and>
   formType (handleNext bank_form_empty) = FT_bank \<and>
   isProcessing (handleNext bank_form_filled) \<and>
   formType (elapse 1100 (handleNext bank_form_filled)) = FT_email \<and>
   errors (elapse 1100 (handleNext bank_form_filled)) = no_errors \<and>
   \<not> isProcessing (elapse 1100 (handleNext bank_form_filled))"
proof -
  have e: "formType bank_form_empty = FT_bank" "selectedBank bank_form_empty = []"
      "accountNumber bank_form_empty = []"
    by code_simp+
  have f: "formType bank_form_filled = FT_bank" "selectedBank bank_form_filled = ''GTBank''"
      "length (accountNumber bank_form_filled) = 10"
    by code_simp+
  have c: "clock bank_form_filled + 500 \<le> 1100"
    by code_simp
  show ?thesis
    using bank_step_advance_gating [OF e f c] e f c by simp
qed

section \<open>The conversion the checkout page performs\<close>

text \<open>
  C2. The code at the input of the claim. On the fresh page the pair is ETH to NGN,
  for which the rate table holds 3500000. Editing the pay amount to \<open>2\<close> leaves
  \<open>7000.00\<close> in \<open>receiveValue\<close> after the delay, where \<open>calculateExchangeRate\<close> gives
  \<open>7000000.00\<close> for the pair. With BTC and USD selected the same edit gives \<open>7000.00\<close>
  again (the table gives \<open>56000.00\<close>): the handler multiplies by the constant 3500
  and never reads the selected currencies or the table.
\<close>

theorem pay_edit_ignores_rate_table:
  "payCurrency Home_init = ''ETH'' \<and> receiveCurrency Home_init = ''NGN'' \<and>
   map_of EXCHANGE_RATES (rate_key ''ETH'' ''NGN'') = Some (Fin 3500000) \<and>
   receiveValue (elapse_home 300 (handlePayValueChange ''2'' Home_init)) = ''7000.00'' \<and>
   calculateExchangeRate (parseFloat ''2'') ''ETH'' ''NGN'' = Inr ''7000000.00'' \<and>
   receiveValue (home_run [PayCurrencyChange ''BTC'', ReceiveCurrencyChange ''USD'',
                           PayValueChange ''2'', HomeElapse 300] Home_init) = ''7000.00'' \<and>
   calculateExchangeRate (parseFloat ''2'') ''BTC'' ''USD'' = Inr ''56000.00''"
  by code_simp

text \<open>
  C3. The code at a non-numeric input. \<^verbatim>\<open>parseFloat(newValue || "0")\<close> replaces only
  the empty string by zero; for \<open>abc\<close> it is \<open>NaN\<close>, and the text \<open>NaN\<close> is written
  into the opposite amount, in both directions. The empty input does give \<open>0.00\<close>, and
  \<open>safeParseFloat\<close> of the same module family gives zero for \<open>abc\<close>.
\<close>

theorem non_numeric_amount_shows_NaN:
  "receiveValue (elapse_home 300 (handlePayValueChange ''abc'' Home_init)) = ''NaN'' \<and>
   payValue (elapse_home 300 (handleReceiveValueChange ''abc'' Home_init)) = ''NaN'' \<and>
   receiveValue (elapse_home 300 (handlePayValueChange [] Home_init)) = ''0.00'' \<and>
   safeParseFloat ''abc'' (Fin 0) = Fin 0 \<and>
   toFixed (js_mul (safeParseFloat ''abc'' (Fin 0)) (Fin 3500)) 2 = Inr ''0.00''"
  by code_simp

section \<open>The fallback for a pair the rate table lacks\<close>

lemma toFixed_zero_2: "toFixed (Fin 0) 2 = Inr ''0.00''"
  by code_simp

text \<open>
  C6 (amended). For every currency pair whose key the rate table lacks: the forward
  conversion of every finite amount returns \<open>0.00\<close> (the rate is taken as 0), and that
  of \<open>NaN\<close> or of an infinity returns \<open>NaN\<close>; the inverse conversion divides by 1; and
  neither direction throws, whatever the amount.
\<close>

theorem fallback_rate_policy:
  assumes "map_of EXCHANGE_RATES (rate_key f t) = None"
  shows "calculateExchangeRate (Fin a) f t = Inr ''0.00'' \<and>
         calculateExchangeRate NaN f t = Inr ''NaN'' \<and>
         calculateExchangeRate PosInf f t = Inr ''NaN'' \<and>
         calculateExchangeRate NegInf f t = Inr ''NaN'' \<and>
         calculateInverseRate x f t = toFixed (js_div x (Fin 1)) 4 \<and>
         (\<exists>r. calculateExchangeRate x f t = Inr r) \<and>
         (\<exists>r. calculateInverseRate x f t = Inr r)"
proof -
  have fwd: "calculateExchangeRate y f t = toFixed (js_mul y (Fin 0)) 2" for y
    using assms by (simp add: calculateExchangeRate_def or_number_def)
  have inv: "calculateInverseRate y f t = toFixed (js_div y (Fin 1)) 4" for y
    using assms by (simp add: calculateInverseRate_def or_number_def)
  have rz: "round_double 0 = Fin 0"
    by (simp add: round_double_def)
  have "\<exists>r. toFixed (js_mul x (Fin 0)) 2 = Inr r"
    by (rule toFixed_ok) simp_all
  moreover have "\<exists>r. toFixed (js_div x (Fin 1)) 4 = Inr r"
    by (rule toFixed_ok) simp_all
  moreover have "toFixed NaN 2 = Inr ''NaN''"
    by (simp add: toFixed_def)
  ultimately show ?thesis
    by (simp add: fwd inv rz toFixed_zero_2)
qed

theorem fallback_rate_policy_witness:
  "map_of EXCHANGE_RATES (rate_key ''ETH'' ''XYZ'') = None \<and>
   calculateExchangeRate (Fin 5) ''ETH'' ''XYZ'' = Inr ''0.00'' \<and>
   calculateInverseRate (Fin 5) ''ETH'' ''XYZ'' = Inr ''5.0000''"
proof -
  have k: "map_of EXCHANGE_RATES (rate_key ''ETH'' ''XYZ'') = None" by code_simp
  have d: "toFixed (js_div (Fin 5) (Fin 1)) 4 = Inr ''5.0000''" by code_simp
  show ?thesis
    using fallback_rate_policy [OF k, of 5 "Fin 5"] k d by simp
qed

text \<open>
  C6 as stated fails: the forward conversion of the amount \<open>NaN\<close> (what \<^verbatim>\<open>parseFloat\<close>
  returns for \<open>abc\<close>) with an absent pair is \<open>NaN\<close>, not \<open>0.00\<close>.
\<close>

theorem fallback_forward_counterexample:
  "map_of EXCHANGE_RATES (rate_key ''ETH'' ''XYZ'') = None \<and>
   calculateExchangeRate NaN ''ETH'' ''XYZ'' = Inr ''NaN'' \<and>
   calculateExchangeRate (parseFloat ''abc'') ''ETH'' ''XYZ'' = Inr ''NaN''"
  by code_simp

section \<open>Validation of the contact step\<close>

text \<open>
  C5. The code at two phone numbers outside the claimed interval. A number of 16
  digits, and a text of seven letters with no digit at all, both pass
  \<open>validateEmailForm\<close> of the page and \<open>validateContact\<close> of the hook without a
  \<open>phoneNumber\<close> error: both test only that the raw length is at least 7.
  \<open>isValidPhone\<close> rejects both, and the table of rules names the upper bound 15.
\<close>

theorem phone_validation_misses_upper_bound:
  "length (filter is_digit ''1234567890123456'') = 16 \<and>
   phoneNumber_error (errors (fst (validateEmailForm
      (s\<lparr>phoneNumber := ''1234567890123456''\<rparr>)))) = None \<and>
   contact_phoneNumber_error (fst (validateContact e ''1234567890123456'')) = None \<and>
   \<not> isValidPhone ''1234567890123456'' \<and>
   length (filter is_digit ''abcdefg'') = 0 \<and>
   phoneNumber_error (errors (fst (validateEmailForm (s\<lparr>phoneNumber := ''abcdefg''\<rparr>)))) = None \<and>
   contact_phoneNumber_error (fst (validateContact e ''abcdefg'')) = None \<and>
   \<not> isValidPhone ''abcdefg'' \<and>
   VALIDATION_phone_maxLength = 15"
  by (simp add: VALIDATION_phone_maxLength_def validateEmailForm_def validateContact_def Let_def no_errors_def
        VALIDATION_phone_minLength_def isValidPhone_def is_digit_def)

section \<open>The account name of the fresh page\<close>

text \<open>Once the page is created, only a completed verification writes a name into
  \<open>accountName\<close>; every other event leaves it alone or clears it.\<close>

lemma accountName_written_by_verification_only:
  "accountName (recipient_step e s) = accountName s \<or>
   accountName (recipient_step e s) = [] \<or>
   (\<exists>T. e = Elapse T \<and> VerifyDone \<in> set (due_tasks T (timers s)) \<and>
        accountName (recipient_step e s) = ''ODUTUGA GBEKE'')"
proof (cases e)
  case (Elapse T)
  then show ?thesis by (simp add: elapse_accountName)
next
  case ClickNext
  then show ?thesis
    by (simp add: handleNext_def validateBankForm_def validateEmailForm_def setTimeout_def
          Let_def)
qed (simp_all add: onBankChange_def handleAccountNumberChange_def onEmailChange_def
       onChangeNumber_def onBackClick_def setTimeout_def Let_def)

text \<open>
  C8. The code at the freshly created state: no account number has been entered, no
  verification is running or has run, and \<open>accountName\<close> already holds the canned
  name.
\<close>

theorem fresh_state_accountName:
  "accountName (RecipientDetails_init c0) = ''ODUTUGA GBEKE'' \<and>
   accountNumber (RecipientDetails_init c0) = [] \<and>
   \<not> isVerifying (RecipientDetails_init c0) \<and>
   timers (RecipientDetails_init c0) = []"
  by (simp add: RecipientDetails_init_def)

section \<open>Field errors\<close>

text \<open>
  C9. On both pages, editing a field that has an error entry clears exactly that
  entry and leaves the others as they were; every other event except a click on the
  advance or convert button (selecting a country, a tab or a currency, editing an
  amount, going back, time passing) leaves all entries as they were, or, when the
  step transition completes, clears them all. So an error is only ever attached by
  the validation that such a click runs.
\<close>

theorem per_field_error_framing:
  "errors (recipient_step (SelectBank v) s) = (errors s)\<lparr>bank_error := None\<rparr> \<and>
   errors (recipient_step (EditAccountNumber v) s) = (errors s)\<lparr>accountNumber_error := None\<rparr> \<and>
   errors (recipient_step (EditEmail v) s) = (errors s)\<lparr>email_error := None\<rparr> \<and>
   errors (recipient_step (EditPhone v) s) = (errors s)\<lparr>phoneNumber_error := None\<rparr> \<and>
   errors (recipient_step (SelectCountry c) s) = errors s \<and>
   errors (recipient_step ClickBack s) = errors s \<and>
   (errors (recipient_step (Elapse T) s) = errors s \<or>
    errors (recipient_step (Elapse T) s) = no_errors) \<and>
   errors_home (home_step (PayFromChange v) h) = (errors_home h)\<lparr>payFrom_error := None\<rparr> \<and>
   errors_home (home_step (PayToChange v) h) = (errors_home h)\<lparr>payTo_error := None\<rparr> \<and>
   errors_home (home_step (TabChange v) h) = errors_home h \<and>
   errors_home (home_step (PayCurrencyChange v) h) = errors_home h \<and>
   errors_home (home_step (ReceiveCurrencyChange v) h) = errors_home h \<and>
   errors_home (home_step (PayValueChange v) h) = errors_home h \<and>
   errors_home (home_step (ReceiveValueChange v) h) = errors_home h \<and>
   errors_home (home_step (HomeElapse T) h) = errors_home h"
  by (simp add: onBankChange_def handleAccountNumberChange_def onEmailChange_def
        onChangeNumber_def onBackClick_def elapse_errors onPayFromChange_def
        onPayToChange_def handlePayValueChange_def handleReceiveValueChange_def
        setTimeout_def elapse_home_env Let_def)

section \<open>The Next button\<close>

text \<open>
  C10. In every state of the recipient page the Next button is disabled exactly when
  \<open>isProcessing\<close> is true, or \<open>isVerifying\<close> is true on the bank step; a click then
  changes nothing, and otherwise runs \<open>handleNext\<close>.
\<close>

theorem next_control_disabled:
  "next_isDisabled s = (isProcessing s \<or> (isVerifying s \<and> formType s = FT_bank)) \<and>
   recipient_step ClickNext s =
     (if isProcessing s \<or> (isVerifying s \<and> formType s = FT_bank) then s else handleNext s)"
  by (auto simp: next_isDisabled_def Button_isDisabled_def next_disabled_prop_def
        next_loading_prop_def)

end
